theory Spec2Isabelle
  imports Main "HOL-Library.AList"
begin

section \<open>Data model (tournaments/models.py)\<close>

text \<open>
  A Python dict keeps its keys unique and in insertion order, so it is an association
  list: \<open>d[k] = v\<close> is \<open>AList.update k v d\<close> (replace in place, else append),
  \<open>del d[k]\<close> is \<open>AList.delete k d\<close>, \<open>k in d\<close> is \<open>k \<in> fst ` set d\<close>,
  \<open>len(d)\<close> is the length, \<open>d.values()\<close> is \<open>map snd d\<close> and \<open>d.get(k, dflt)\<close> is
  \<open>dict_get\<close>. Python integers are \<open>int\<close>; a nullable field is an \<open>option\<close>.

  The JSON payloads are taken at the shape the data model gives them: \<open>scores\<close> is
  null or an object from category identifiers to integers, \<open>isKO\<close> a boolean,
  \<open>koWinnerId\<close> null or an integer (what \<open>SubmitScoreSerializer\<close> hands over for
  \<open>is_ko\<close> and \<open>ko_winner_id\<close>). On such payloads \<open>calculate_result\<close> raises nothing.
\<close>

type_synonym scores_dict = "(string \<times> int) list"

record judge_entry =
  scores :: "scores_dict option"
  isKO :: bool
  koWinnerId :: "int option"
  submittedAt :: string

datatype win_method = KO | Points

record match_result =
  winnerId :: "int option"
  winMethod :: win_method
  scoreA :: int
  scoreB :: int
  koVotes :: "int option"

record judge_score =
  match_id :: string
  tournament_id :: string
  competitor_a_id :: "int option"
  competitor_b_id :: "int option"
  judges :: "(string \<times> judge_entry) list"
  finalized :: bool
  result :: "match_result option"

definition dict_get :: "('k \<times> 'v) list \<Rightarrow> 'k \<Rightarrow> 'v \<Rightarrow> 'v" where
  "dict_get d k dflt = (case map_of d k of None \<Rightarrow> dflt | Some v \<Rightarrow> v)"

definition judge_count :: "judge_score \<Rightarrow> int" where
  "judge_count score = int (length (judges score))"

definition add_judge_score ::
  "judge_score \<Rightarrow> string \<Rightarrow> scores_dict option \<Rightarrow> bool \<Rightarrow> int option \<Rightarrow> string \<Rightarrow> judge_score" where
  "add_judge_score score judge_id scs is_ko ko_winner_id now =
     score\<lparr>judges := AList.update judge_id
       \<lparr>scores = scs, isKO = is_ko, koWinnerId = ko_winner_id, submittedAt = now\<rparr>
       (judges score)\<rparr>"

definition remove_judge_score :: "judge_score \<Rightarrow> string \<Rightarrow> bool \<times> judge_score" where
  "remove_judge_score score judge_id =
     (if judge_id \<in> fst ` set (judges score)
      then (True, score\<lparr>judges := AList.delete judge_id (judges score)\<rparr>)
      else (False, score))"

subsection \<open>calculate_result\<close>

text \<open>
  The first loop of \<open>calculate_result\<close>: \<open>judge.get('isKO') and judge.get('koWinnerId')\<close>
  is Python truthiness, so a null winner and the winner 0 are both skipped.
\<close>

fun count_ko_votes :: "(int \<times> int) list \<Rightarrow> judge_entry list \<Rightarrow> (int \<times> int) list" where
  "count_ko_votes ko_votes [] = ko_votes"
| "count_ko_votes ko_votes (judge # rest) =
     (case koWinnerId judge of
        None \<Rightarrow> count_ko_votes ko_votes rest
      | Some winner_id \<Rightarrow>
          if isKO judge \<and> winner_id \<noteq> 0
          then count_ko_votes
                 (AList.update winner_id (dict_get ko_votes winner_id 0 + 1) ko_votes) rest
          else count_ko_votes ko_votes rest)"

text \<open>
  The point loop. \<open>judge.get('scores')\<close> is truthiness again: null and the empty
  object are skipped. Only the three default category identifiers are read.
\<close>

definition judge_score_a :: "scores_dict \<Rightarrow> int" where
  "judge_score_a s =
     dict_get s ''aggression'' 0 + dict_get s ''damage'' 0 + dict_get s ''control'' 0"

fun point_totals :: "int \<times> int \<Rightarrow> judge_entry list \<Rightarrow> int \<times> int" where
  "point_totals (total_a, total_b) [] = (total_a, total_b)"
| "point_totals (total_a, total_b) (judge # rest) =
     (case scores judge of
        None \<Rightarrow> point_totals (total_a, total_b) rest
      | Some s \<Rightarrow>
          if s \<noteq> []
          then point_totals (total_a + judge_score_a s, total_b + (11 - judge_score_a s)) rest
          else point_totals (total_a, total_b) rest)"

text \<open>
  The second loop returns at the first entry of \<open>ko_votes\<close> (in insertion order) with
  two or more votes; otherwise the point totals decide, competitor A winning only on a
  strictly greater total.
\<close>

definition calculate_result :: "judge_score \<Rightarrow> match_result" where
  "calculate_result score =
     (let js = map snd (judges score) in
      case find (\<lambda>(winner_id, votes). 2 \<le> votes) (count_ko_votes [] js) of
        Some (winner_id, votes) \<Rightarrow>
          let total_max_points = 11 * 3;
              is_winner_a = (Some winner_id = competitor_a_id score)
          in \<lparr>winnerId = Some winner_id, winMethod = KO,
               scoreA = (if is_winner_a then total_max_points else 0),
               scoreB = (if is_winner_a then 0 else total_max_points),
               koVotes = Some votes\<rparr>
      | None \<Rightarrow>
          (case point_totals (0, 0) js of
             (total_a, total_b) \<Rightarrow>
               \<lparr>winnerId = (if total_a > total_b then competitor_a_id score
                             else competitor_b_id score),
                winMethod = Points, scoreA = total_a, scoreB = total_b,
                koVotes = None\<rparr>))"

section \<open>The scoring endpoints (tournaments/views.py)\<close>

text \<open>
  \<open>JudgeScore.objects\<close> is a table with \<open>match_id\<close> unique: a map from match
  identifiers to rows. \<open>save()\<close> writes the whole row back under its \<open>match_id\<close>.
  The model methods above return the changed row; the endpoint functions below do the
  \<open>save()\<close> the methods end with.
\<close>

type_synonym store = "string \<rightharpoonup> judge_score"

text \<open>\<open>serializer.validated_data\<close> of \<open>SubmitScoreSerializer\<close>.\<close>

record submit_data =
  judge_id :: string
  req_tournament_id :: string
  req_competitor_a_id :: int
  req_competitor_b_id :: int
  req_scores :: "scores_dict option"
  is_ko :: bool
  ko_winner_id :: "int option"

text \<open>
  The responses of the three scoring endpoints. \<open>SubmitWaiting n k\<close> is the body with
  \<open>judgeCount = n\<close>, \<open>finalized = False\<close> and the message that \<open>k\<close> more judges are
  awaited; \<open>SubmitFinalized n res\<close> the body with \<open>finalized = True\<close> and the result.
\<close>

datatype response =
    BadRequest
  | SubmitFinalized int match_result
  | SubmitWaiting int int
  | MatchAlreadyFinalized
  | ScoreNotFound
  | ScoreDeleted
  | Details "int option" "int option" "(string \<times> judge_entry) list" int bool "match_result option"

fun status_code :: "response \<Rightarrow> nat" where
  "status_code BadRequest = 400"
| "status_code MatchAlreadyFinalized = 400"
| "status_code ScoreNotFound = 404"
| "status_code _ = 200"

definition get_or_create :: "store \<Rightarrow> string \<Rightarrow> submit_data \<Rightarrow> judge_score" where
  "get_or_create db mid data =
     (case db mid of
        Some score \<Rightarrow> score
      | None \<Rightarrow>
          \<lparr>match_id = mid, tournament_id = req_tournament_id data,
           competitor_a_id = Some (req_competitor_a_id data),
           competitor_b_id = Some (req_competitor_b_id data),
           judges = [], finalized = False, result = None\<rparr>)"

text \<open>
  \<open>match_scores\<close>, method POST. The request is \<open>None\<close> when
  \<open>serializer.is_valid()\<close> fails. \<open>now\<close> is \<open>timezone.now().isoformat()\<close>. The calls
  to the bracket provider and to the chat webhook that follow the second \<open>save()\<close> run
  inside \<open>try\<close>/\<open>except Exception\<close>, touch no row and only add the advisory
  \<open>challongeResponse\<close> field to the body; they are left out.
\<close>

definition match_scores_post ::
  "store \<Rightarrow> string \<Rightarrow> submit_data option \<Rightarrow> string \<Rightarrow> response \<times> store" where
  "match_scores_post db mid req now =
     (case req of
        None \<Rightarrow> (BadRequest, db)
      | Some data \<Rightarrow>
          let score = add_judge_score (get_or_create db mid data) (judge_id data)
                        (req_scores data) (is_ko data) (ko_winner_id data) now
          in if judge_count score \<ge> 3 \<and> \<not> finalized score
             then let res = calculate_result score;
                      score' = score\<lparr>result := Some res, finalized := True\<rparr>
                  in (SubmitFinalized (judge_count score') res, db(mid \<mapsto> score'))
             else (SubmitWaiting (judge_count score) (3 - judge_count score),
                   db(mid \<mapsto> score)))"

text \<open>\<open>delete_judge_score\<close>.\<close>

definition delete_judge_score :: "store \<Rightarrow> string \<Rightarrow> string \<Rightarrow> response \<times> store" where
  "delete_judge_score db mid jid =
     (case db mid of
        None \<Rightarrow> (ScoreNotFound, db)
      | Some score \<Rightarrow>
          if finalized score then (MatchAlreadyFinalized, db)
          else (case remove_judge_score score jid of
                  (True, score') \<Rightarrow> (ScoreDeleted, db(mid \<mapsto> score'))
                | (False, _) \<Rightarrow> (ScoreNotFound, db)))"

text \<open>
  \<open>match_scores_details\<close>. When the row is missing and a tournament is named, the
  attachments of the match are read from the bracket provider (\<open>None\<close>: the call
  raised). An attachment's description is not JSON (\<open>NotJson\<close>: skipped), a JSON
  object (\<open>Json\<close>), or something on which \<open>json.loads\<close> or \<open>data.get\<close> raises another
  exception than the two the inner \<open>except\<close> names (\<open>Aborts\<close>: a null description, a
  JSON value that is no object), which ends the scan in the outer \<open>except\<close>.
\<close>

record attachment_data =
  att_type :: "string option"
  att_judges :: "(string \<times> judge_entry) list option"
  att_competitorAId :: "int option"
  att_competitorBId :: "int option"
  att_result :: "match_result option"

datatype attachment = NotJson | Aborts | Json attachment_data

fun recover_attachment :: "attachment list \<Rightarrow> attachment_data option" where
  "recover_attachment [] = None"
| "recover_attachment (NotJson # atts) = recover_attachment atts"
| "recover_attachment (Aborts # atts) = None"
| "recover_attachment (Json data # atts) =
     (if att_type data = Some ''judge_scores'' then Some data else recover_attachment atts)"

definition details_of :: "judge_score \<Rightarrow> response" where
  "details_of score =
     Details (competitor_a_id score) (competitor_b_id score) (judges score)
       (judge_count score) (finalized score) (result score)"

definition match_scores_details ::
  "store \<Rightarrow> string \<Rightarrow> string \<Rightarrow> attachment list option \<Rightarrow> response \<times> store" where
  "match_scores_details db mid tid fetched =
     (case db mid of
        Some score \<Rightarrow> (details_of score, db)
      | None \<Rightarrow>
          (case (if tid \<noteq> [] then fetched else None) of
             None \<Rightarrow> (Details None None [] 0 False None, db)
           | Some atts \<Rightarrow>
               (case recover_attachment atts of
                  None \<Rightarrow> (Details None None [] 0 False None, db)
                | Some data \<Rightarrow>
                    let score =
                          \<lparr>match_id = mid, tournament_id = tid,
                           competitor_a_id = att_competitorAId data,
                           competitor_b_id = att_competitorBId data,
                           judges = (case att_judges data of None \<Rightarrow> [] | Some js \<Rightarrow> js),
                           finalized = True, result = att_result data\<rparr>
                    in (details_of score, db(mid \<mapsto> score)))))"

subsection \<open>Stores the endpoints can produce\<close>

text \<open>
  The stores reachable from the empty table by the three endpoints, for any arguments;
  \<open>trusted\<close> says which attachment lists the bracket provider may return.
\<close>

inductive reachable :: "(attachment list option \<Rightarrow> bool) \<Rightarrow> store \<Rightarrow> bool"
  for trusted :: "attachment list option \<Rightarrow> bool" where
  start: "reachable trusted Map.empty"
| submit: "reachable trusted db \<Longrightarrow> reachable trusted (snd (match_scores_post db mid req now))"
| delete: "reachable trusted db \<Longrightarrow> reachable trusted (snd (delete_judge_score db mid jid))"
| details: "reachable trusted db \<Longrightarrow> trusted fetched \<Longrightarrow>
            reachable trusted (snd (match_scores_details db mid tid fetched))"

definition any_attachments :: "attachment list option \<Rightarrow> bool" where
  "any_attachments fetched = True"

definition carries_result :: "attachment list option \<Rightarrow> bool" where
  "carries_result fetched =
     (case fetched of
        None \<Rightarrow> True
      | Some atts \<Rightarrow>
          (case recover_attachment atts of
             None \<Rightarrow> True
           | Some data \<Rightarrow> att_result data \<noteq> None))"

section \<open>Notions used to state the properties\<close>

text \<open>
  \<open>votes_for js w\<close>: the number of entries that are knockout votes for \<open>w\<close>, a vote
  being an entry with \<open>isKO\<close> true and the non-null \<open>koWinnerId\<close> \<open>w\<close>.
\<close>

definition votes_for :: "judge_entry list \<Rightarrow> int \<Rightarrow> int" where
  "votes_for js w = int (length (filter (\<lambda>j. isKO j \<and> koWinnerId j = Some w) js))"

text \<open>The category identifiers of \<open>Event.get_default_scoring_criteria\<close>.\<close>

definition default_categories :: "string list" where
  "default_categories = [''aggression'', ''damage'', ''control'']"

text \<open>The sum of the values a scores object holds under the default identifiers.\<close>

definition named_points :: "scores_dict \<Rightarrow> int" where
  "named_points s = sum_list (map snd (filter (\<lambda>(k, v). k \<in> set default_categories) s))"

text \<open>An entry whose \<open>scores\<close> is neither null nor empty; the scores object of an entry.\<close>

definition scoring :: "judge_entry \<Rightarrow> bool" where
  "scoring j = (case scores j of None \<Rightarrow> False | Some s \<Rightarrow> s \<noteq> [])"

definition scores_of :: "judge_entry \<Rightarrow> scores_dict" where
  "scores_of j = (case scores j of None \<Rightarrow> [] | Some s \<Rightarrow> s)"

text \<open>Inputs for the examples: a point submission, a knockout submission, an open row.\<close>

abbreviation points_entry :: "scores_dict \<Rightarrow> judge_entry" where
  "points_entry s \<equiv>
     \<lparr>scores = Some s, isKO = False, koWinnerId = None, submittedAt = ''2026-03-01T10:00:00''\<rparr>"

abbreviation ko_entry :: "int \<Rightarrow> judge_entry" where
  "ko_entry w \<equiv>
     \<lparr>scores = None, isKO = True, koWinnerId = Some w, submittedAt = ''2026-03-01T10:00:00''\<rparr>"

abbreviation open_record :: "(string \<times> judge_entry) list \<Rightarrow> judge_score" where
  "open_record js \<equiv>
     \<lparr>match_id = ''m1'', tournament_id = ''t1'', competitor_a_id = Some 1,
      competitor_b_id = Some 2, judges = js, finalized = False, result = None\<rparr>"

abbreviation points_request :: "string \<Rightarrow> scores_dict \<Rightarrow> submit_data" where
  "points_request jid s \<equiv>
     \<lparr>judge_id = jid, req_tournament_id = ''t1'', req_competitor_a_id = 1,
      req_competitor_b_id = 2, req_scores = Some s, is_ko = False, ko_winner_id = None\<rparr>"

abbreviation finalized_record :: judge_score where
  "finalized_record \<equiv>
     \<lparr>match_id = ''m1'', tournament_id = ''t1'', competitor_a_id = Some 1,
      competitor_b_id = Some 2,
      judges = [(''j1'', ko_entry 1), (''j2'', ko_entry 1), (''j3'', points_entry [(''damage'', 5)])],
      finalized = True,
      result = Some \<lparr>winnerId = Some 1, winMethod = KO, scoreA = 33, scoreB = 0, koVotes = Some 2\<rparr>\<rparr>"

abbreviation points_finalized_record :: judge_score where
  "points_finalized_record \<equiv>
     \<lparr>match_id = ''m1'', tournament_id = ''t1'', competitor_a_id = Some 1,
      competitor_b_id = Some 2,
      judges =
        [(''j1'', points_entry [(''aggression'', 3), (''damage'', 5), (''control'', 3)]),
         (''j2'', points_entry [(''aggression'', 1), (''damage'', 2)]),
         (''j3'', points_entry [(''control'', 2)])],
      finalized = True,
      result = Some \<lparr>winnerId = Some 2, winMethod = Points, scoreA = 16, scoreB = 17,
                      koVotes = None\<rparr>\<rparr>"

abbreviation recovered_attachments :: "attachment list option" where
  "recovered_attachments \<equiv>
     Some [NotJson,
       Json \<lparr>att_type = Some ''judge_scores'', att_judges = Some [(''j1'', ko_entry 2)],
         att_competitorAId = Some 1, att_competitorBId = Some 2,
         att_result = Some \<lparr>winnerId = Some 2, winMethod = KO, scoreA = 0, scoreB = 33,
                             koVotes = Some 2\<rparr>\<rparr>]"

abbreviation recovered_record :: judge_score where
  "recovered_record \<equiv>
     \<lparr>match_id = ''m2'', tournament_id = ''t1'', competitor_a_id = Some 1,
      competitor_b_id = Some 2, judges = [(''j1'', ko_entry 2)], finalized = True,
      result = Some \<lparr>winnerId = Some 2, winMethod = KO, scoreA = 0, scoreB = 33,
                      koVotes = Some 2\<rparr>\<rparr>"

text \<open>Every row of the store has a result exactly when it is finalized.\<close>

definition result_iff_finalized :: "store \<Rightarrow> bool" where
  "result_iff_finalized db =
     (\<forall>mid score. db mid = Some score \<longrightarrow> (result score \<noteq> None) = finalized score)"

section \<open>Lemmas on the knockout tally\<close>

lemmas eval_defs = calculate_result_def judge_score_a_def dict_get_def votes_for_def

lemma votes_for_Nil: "votes_for [] w = 0"
  by (simp add: votes_for_def)

lemma votes_for_Cons:
  "votes_for (j # js) w = (if isKO j \<and> koWinnerId j = Some w then 1 else 0) + votes_for js w"
  by (simp add: votes_for_def)

lemma votes_for_nonneg: "0 \<le> votes_for js w"
  by (simp add: votes_for_def)

lemma count_ko_votes_distinct:
  "distinct (map fst kv) \<Longrightarrow> distinct (map fst (count_ko_votes kv js))"
  by (induction js arbitrary: kv) (auto simp: distinct_update split: option.splits)

lemma count_ko_votes_map_of:
  "map_of (count_ko_votes kv js) w =
     (if w = 0 \<or> votes_for js w = 0 then map_of kv w
      else Some (dict_get kv w 0 + votes_for js w))"
proof (induction js arbitrary: kv)
  case Nil
  show ?case by (simp add: votes_for_Nil)
next
  case (Cons j js)
  have nn: "0 \<le> votes_for js w" by (rule votes_for_nonneg)
  show ?case
  proof (cases "koWinnerId j")
    case None
    then show ?thesis using Cons.IH [of kv] by (simp add: votes_for_Cons)
  next
    case (Some x)
    show ?thesis
    proof (cases "isKO j \<and> x \<noteq> 0")
      case False
      then show ?thesis using Some Cons.IH [of kv] by (auto simp: votes_for_Cons)
    next
      case True
      then show ?thesis
        using Some nn Cons.IH [of "AList.update x (dict_get kv x 0 + 1) kv"]
        by (auto simp: votes_for_Cons update_conv' dict_get_def)
    qed
  qed
qed

lemma count_ko_votes_entry:
  "(w, v) \<in> set (count_ko_votes [] js) \<longleftrightarrow> w \<noteq> 0 \<and> 0 < v \<and> v = votes_for js w"
proof -
  have d: "distinct (map fst (count_ko_votes [] js))"
    by (rule count_ko_votes_distinct) simp
  have "(w, v) \<in> set (count_ko_votes [] js) \<longleftrightarrow> map_of (count_ko_votes [] js) w = Some v"
    using d by simp
  also have "\<dots> \<longleftrightarrow> w \<noteq> 0 \<and> 0 < v \<and> v = votes_for js w"
    using votes_for_nonneg [of js w]
    by (auto simp: count_ko_votes_map_of dict_get_def)
  finally show ?thesis .
qed

lemma find_ko_None:
  "find (\<lambda>(winner_id, votes). 2 \<le> votes) (count_ko_votes [] js) = None \<longleftrightarrow>
     (\<forall>w. w \<noteq> 0 \<longrightarrow> votes_for js w < 2)"
  by (auto simp: find_None_iff count_ko_votes_entry) (metis not_less zero_less_numeral order_less_le_trans)

lemma find_ko_Some:
  "find (\<lambda>(winner_id, votes). 2 \<le> votes) (count_ko_votes [] js) = Some (w, v) \<Longrightarrow>
     w \<noteq> 0 \<and> 2 \<le> v \<and> v = votes_for js w"
  by (auto simp: find_Some_iff count_ko_votes_entry dest: nth_mem)

section \<open>Lemmas on the point tally\<close>

lemma dict_get_Nil: "dict_get [] k d = d"
  by (simp add: dict_get_def)

lemma dict_get_Cons: "dict_get ((k', v) # s) k d = (if k' = k then v else dict_get s k d)"
  by (simp add: dict_get_def)

lemma dict_get_absent: "k \<notin> fst ` set s \<Longrightarrow> dict_get s k d = d"
  by (simp add: dict_get_def map_of_eq_None_iff [THEN iffD2])

lemma judge_score_a_named:
  "distinct (map fst s) \<Longrightarrow> judge_score_a s = named_points s"
proof (induction s)
  case Nil
  show ?case by (simp add: judge_score_a_def named_points_def dict_get_Nil)
next
  case (Cons p s)
  obtain k v where p: "p = (k, v)" by (cases p)
  from Cons.prems p have notin: "k \<notin> fst ` set s" and d: "distinct (map fst s)" by auto
  have ih: "judge_score_a s = named_points s" using Cons.IH d by simp
  have np: "named_points (p # s) = (if k \<in> set default_categories then v else 0) + named_points s"
    by (simp add: named_points_def p)
  show ?case
    using ih notin unfolding np
    by (auto simp: p judge_score_a_def dict_get_Cons dict_get_absent default_categories_def)
qed

lemma point_totals_sums:
  "point_totals (a, b) js =
     (a + (\<Sum>j\<leftarrow>js. judge_score_a (scores_of j)),
      b + (\<Sum>j\<leftarrow>filter scoring js. 11 - judge_score_a (scores_of j)))"
proof (induction js arbitrary: a b)
  case Nil
  show ?case by simp
next
  case (Cons j js)
  have z: "judge_score_a [] = 0" by (simp add: judge_score_a_def dict_get_Nil)
  show ?case
    by (cases "scores j") (simp_all add: Cons.IH scoring_def scores_of_def z)
qed

lemma no_majority_points:
  assumes "\<forall>w. votes_for (map snd (judges r)) w < 2"
  shows "calculate_result r =
     (case point_totals (0, 0) (map snd (judges r)) of
        (total_a, total_b) \<Rightarrow>
          \<lparr>winnerId = (if total_a > total_b then competitor_a_id r else competitor_b_id r),
           winMethod = Points, scoreA = total_a, scoreB = total_b, koVotes = None\<rparr>)"
proof -
  have "find (\<lambda>(winner_id, votes). 2 \<le> votes) (count_ko_votes [] (map snd (judges r))) = None"
    using assms by (simp add: find_ko_None)
  then show ?thesis by (simp add: calculate_result_def)
qed

lemma ko_branch:
  "find (\<lambda>(winner_id, votes). 2 \<le> votes) (count_ko_votes [] (map snd (judges r))) = Some (w, v)
   \<Longrightarrow> calculate_result r =
       \<lparr>winnerId = Some w, winMethod = KO,
        scoreA = (if Some w = competitor_a_id r then 33 else 0),
        scoreB = (if Some w = competitor_a_id r then 0 else 33), koVotes = Some v\<rparr>"
  by (simp add: calculate_result_def Let_def)

lemma points_branch:
  "find (\<lambda>(winner_id, votes). 2 \<le> votes) (count_ko_votes [] (map snd (judges r))) = None
   \<Longrightarrow> calculate_result r =
       \<lparr>winnerId = (if fst (point_totals (0, 0) (map snd (judges r)))
                          > snd (point_totals (0, 0) (map snd (judges r)))
                     then competitor_a_id r else competitor_b_id r),
        winMethod = Points,
        scoreA = fst (point_totals (0, 0) (map snd (judges r))),
        scoreB = snd (point_totals (0, 0) (map snd (judges r))), koVotes = None\<rparr>"
  by (simp add: calculate_result_def Let_def split: prod.splits)

lemma sum_list_nonneg_int: "(\<And>x. x \<in> set xs \<Longrightarrow> 0 \<le> f x) \<Longrightarrow> (0::int) \<le> (\<Sum>x\<leftarrow>xs. f x)"
  by (induction xs) auto

section \<open>Lemmas on the endpoints\<close>

lemma submit_row:
  "snd (match_scores_post db mid (Some data) now) mid \<noteq> None"
  by (simp add: match_scores_post_def Let_def)

lemma submit_other_rows:
  "mid' \<noteq> mid \<Longrightarrow> snd (match_scores_post db mid req now) mid' = db mid'"
  by (cases req) (simp_all add: match_scores_post_def Let_def)

lemma submit_preserves:
  assumes "result_iff_finalized db"
  shows "result_iff_finalized (snd (match_scores_post db mid req now))"
proof (cases req)
  case None
  then show ?thesis using assms by (simp add: match_scores_post_def)
next
  case (Some data)
  let ?g = "get_or_create db mid data"
  have g: "(result ?g \<noteq> None) = finalized ?g"
    using assms by (cases "db mid") (auto simp: get_or_create_def result_iff_finalized_def)
  show ?thesis
    unfolding result_iff_finalized_def
  proof (intro allI impI)
    fix mid' score
    assume a: "snd (match_scores_post db mid req now) mid' = Some score"
    show "(result score \<noteq> None) = finalized score"
    proof (cases "mid' = mid")
      case False
      with a assms show ?thesis
        by (simp add: submit_other_rows result_iff_finalized_def)
    next
      case True
      with a Some g show ?thesis
        by (auto simp: match_scores_post_def Let_def add_judge_score_def split: if_splits)
    qed
  qed
qed

lemma delete_preserves:
  assumes "result_iff_finalized db"
  shows "result_iff_finalized (snd (delete_judge_score db mid jid))"
  using assms
  by (auto simp: delete_judge_score_def remove_judge_score_def result_iff_finalized_def
           split: option.splits if_splits)

lemma details_preserves:
  assumes "result_iff_finalized db" and "carries_result fetched"
  shows "result_iff_finalized (snd (match_scores_details db mid tid fetched))"
  using assms
  by (auto simp: match_scores_details_def carries_result_def result_iff_finalized_def Let_def
           split: option.splits if_splits)

section \<open>The claims\<close>

text \<open>
  C1 (as the code has it). When no identifier has two or more knockout votes, the
  method is Points and the winner is competitor A exactly when A's total is strictly
  greater than B's, and competitor B otherwise; so when the two point totals are equal
  \<open>calculate_result\<close> returns competitor B as the winner. On the empty submission set
  the scores are 0 and 0.
\<close>

theorem tie_goes_to_competitor_b:
  assumes "\<forall>w. votes_for (map snd (judges r)) w < 2"
  shows "winMethod (calculate_result r) = Points \<and>
         winnerId (calculate_result r) =
           (if scoreA (calculate_result r) > scoreB (calculate_result r)
            then competitor_a_id r else competitor_b_id r) \<and>
         (scoreA (calculate_result r) = scoreB (calculate_result r) \<longrightarrow>
            winnerId (calculate_result r) = competitor_b_id r) \<and>
         (judges r = [] \<longrightarrow> scoreA (calculate_result r) = 0 \<and> scoreB (calculate_result r) = 0)"
proof -
  obtain ta tb where pt: "point_totals (0, 0) (map snd (judges r)) = (ta, tb)"
    by (cases "point_totals (0, 0) (map snd (judges r))")
  have res: "calculate_result r =
      \<lparr>winnerId = (if ta > tb then competitor_a_id r else competitor_b_id r),
       winMethod = Points, scoreA = ta, scoreB = tb, koVotes = None\<rparr>"
    using no_majority_points [OF assms] pt by simp
  have "judges r = [] \<longrightarrow> ta = 0 \<and> tb = 0"
    using pt by auto
  with res show ?thesis by simp
qed

text \<open>
  C1, witness: two judges, 11 points to A from the first and 0 from the second, give
  11 to 11 and winner B; one judge giving A 7 points gives 7 to 4 and winner A.
\<close>

theorem tie_goes_to_competitor_b_witness:
  "(\<forall>w. votes_for (map snd
      [(''j1'', points_entry [(''aggression'', 3), (''damage'', 5), (''control'', 3)]),
       (''j2'', points_entry [(''aggression'', 0)])]) w < 2) \<and>
   calculate_result (open_record
      [(''j1'', points_entry [(''aggression'', 3), (''damage'', 5), (''control'', 3)]),
       (''j2'', points_entry [(''aggression'', 0)])]) =
     \<lparr>winnerId = Some 2, winMethod = Points, scoreA = 11, scoreB = 11, koVotes = None\<rparr> \<and>
   calculate_result (open_record
      [(''j1'', points_entry [(''aggression'', 2), (''damage'', 4), (''control'', 1)])]) =
     \<lparr>winnerId = Some 1, winMethod = Points, scoreA = 7, scoreB = 4, koVotes = None\<rparr>"
  using tie_goes_to_competitor_b [of "open_record
      [(''j1'', points_entry [(''aggression'', 3), (''damage'', 5), (''control'', 3)]),
       (''j2'', points_entry [(''aggression'', 0)])]"]
    tie_goes_to_competitor_b [of "open_record
      [(''j1'', points_entry [(''aggression'', 2), (''damage'', 4), (''control'', 1)])]"]
  by (simp add: eval_defs)

text \<open>
  C1, counterexample to the claim as stated (ties go to competitor A): the empty
  submission set of a match between competitors 1 and 2 gives winner 2.
\<close>

theorem tie_winner_a_counterexample:
  "calculate_result \<lparr>match_id = ''m1'', tournament_id = ''t'', competitor_a_id = Some 1,
      competitor_b_id = Some 2, judges = [], finalized = False, result = None\<rparr> =
     \<lparr>winnerId = Some 2, winMethod = Points, scoreA = 0, scoreB = 0, koVotes = None\<rparr>"
  by (simp add: calculate_result_def)

text \<open>
  C3 (as the code has it). When a nonzero identifier has two or more knockout votes,
  \<open>calculate_result\<close> returns method KO; the winner is a nonzero identifier with two or
  more votes, and is that identifier when no other nonzero identifier has two or more; 33
  goes to side A when the winner is competitor A and to side B otherwise, 0 to the other
  side; \<open>koVotes\<close> is the winner's vote count. Nothing is assumed on the other
  submissions or on their number.
\<close>

theorem ko_majority_wins:
  assumes "w \<noteq> 0" and "2 \<le> votes_for (map snd (judges r)) w"
  shows "\<exists>w'. w' \<noteq> 0 \<and> 2 \<le> votes_for (map snd (judges r)) w' \<and>
           calculate_result r =
             \<lparr>winnerId = Some w', winMethod = KO,
              scoreA = (if Some w' = competitor_a_id r then 33 else 0),
              scoreB = (if Some w' = competitor_a_id r then 0 else 33),
              koVotes = Some (votes_for (map snd (judges r)) w')\<rparr> \<and>
           ((\<forall>u. u \<noteq> w \<and> u \<noteq> 0 \<longrightarrow> votes_for (map snd (judges r)) u < 2) \<longrightarrow> w' = w)"
proof -
  let ?js = "map snd (judges r)"
  let ?f = "find (\<lambda>(winner_id, votes). 2 \<le> votes) (count_ko_votes [] ?js)"
  have "?f \<noteq> None"
    using assms by (simp add: find_ko_None) (metis not_less)
  then obtain w' v where f: "?f = Some (w', v)" by (cases ?f) auto
  from find_ko_Some [OF f] have w': "w' \<noteq> 0" "2 \<le> v" "v = votes_for ?js w'" by simp_all
  have res: "calculate_result r =
             \<lparr>winnerId = Some w', winMethod = KO,
              scoreA = (if Some w' = competitor_a_id r then 33 else 0),
              scoreB = (if Some w' = competitor_a_id r then 0 else 33),
              koVotes = Some (votes_for ?js w')\<rparr>"
    using f w'(3) by (simp add: calculate_result_def)
  have "(\<forall>u. u \<noteq> w \<and> u \<noteq> 0 \<longrightarrow> votes_for ?js u < 2) \<longrightarrow> w' = w"
    using w' by force
  with w' res show ?thesis by blast
qed

text \<open>
  C3, witness: two knockout votes for competitor 2 and a point submission of 11 for A.
\<close>

theorem ko_majority_wins_witness:
  "calculate_result (open_record [(''j1'', ko_entry 2), (''j2'', ko_entry 2),
       (''j3'', points_entry [(''aggression'', 3), (''damage'', 5), (''control'', 3)])]) =
     \<lparr>winnerId = Some 2, winMethod = KO, scoreA = 0, scoreB = 33, koVotes = Some 2\<rparr>"
  using ko_majority_wins [of 2 "open_record [(''j1'', ko_entry 2), (''j2'', ko_entry 2),
       (''j3'', points_entry [(''aggression'', 3), (''damage'', 5), (''control'', 3)])]"]
  by (simp add: eval_defs)

text \<open>
  C3, counterexample to the claim as stated: two votes for the identifier 0 are not
  counted (the result is by points), and with two votes each for 5 and 7 the winner is 5,
  whose vote came first, not 7.
\<close>

theorem ko_majority_counterexample:
  "2 \<le> votes_for (map snd [(''j1'', ko_entry 0), (''j2'', ko_entry 0)]) 0 \<and>
   calculate_result (open_record [(''j1'', ko_entry 0), (''j2'', ko_entry 0)]) =
     \<lparr>winnerId = Some 2, winMethod = Points, scoreA = 0, scoreB = 0, koVotes = None\<rparr> \<and>
   2 \<le> votes_for (map snd [(''j1'', ko_entry 5), (''j2'', ko_entry 7), (''j3'', ko_entry 7),
       (''j4'', ko_entry 5)]) 7 \<and>
   calculate_result (open_record [(''j1'', ko_entry 5), (''j2'', ko_entry 7), (''j3'', ko_entry 7),
       (''j4'', ko_entry 5)]) =
     \<lparr>winnerId = Some 5, winMethod = KO, scoreA = 0, scoreB = 33, koVotes = Some 2\<rparr>"
  by (simp add: eval_defs)

text \<open>
  C4 (as the code has it). When the three category values of every submission with
  scores sum to between 0 and 11, both scores of the result are non-negative.
\<close>

theorem scores_nonnegative_when_bounded:
  assumes "\<forall>j \<in> set (map snd (judges r)). \<forall>s. scores j = Some s \<longrightarrow>
             0 \<le> judge_score_a s \<and> judge_score_a s \<le> 11"
  shows "0 \<le> scoreA (calculate_result r) \<and> 0 \<le> scoreB (calculate_result r)"
proof -
  let ?js = "map snd (judges r)"
  have z: "judge_score_a [] = 0" by (simp add: judge_score_a_def dict_get_def)
  have b: "0 \<le> judge_score_a (scores_of j) \<and> judge_score_a (scores_of j) \<le> 11"
    if "j \<in> set ?js" for j
    using assms that z by (cases "scores j") (auto simp: scores_of_def)
  have a: "0 \<le> (\<Sum>j\<leftarrow>?js. judge_score_a (scores_of j))"
    by (rule sum_list_nonneg_int) (use b in blast)
  have "0 \<le> (\<Sum>j\<leftarrow>filter scoring ?js. 11 - judge_score_a (scores_of j))"
    by (rule sum_list_nonneg_int) (use b in auto)
  with a have "0 \<le> fst (point_totals (0, 0) ?js) \<and> 0 \<le> snd (point_totals (0, 0) ?js)"
    by (simp add: point_totals_sums)
  then show ?thesis
  proof (cases "find (\<lambda>(winner_id, votes). 2 \<le> votes) (count_ko_votes [] ?js)")
    case None
    with \<open>0 \<le> fst (point_totals (0, 0) ?js) \<and> 0 \<le> snd (point_totals (0, 0) ?js)\<close>
    show ?thesis by (simp add: points_branch)
  next
    case (Some p)
    then show ?thesis by (cases p) (simp add: ko_branch)
  qed
qed

text \<open>
  C4, witness: one judge giving 2, 4 and 1.
\<close>

theorem scores_nonnegative_when_bounded_witness:
  "calculate_result (open_record [(''j1'', points_entry [(''aggression'', 2), (''damage'', 4), (''control'', 1)])]) =
     \<lparr>winnerId = Some 1, winMethod = Points, scoreA = 7, scoreB = 4, koVotes = None\<rparr> \<and>
   0 \<le> scoreA (calculate_result (open_record [(''j1'', points_entry [(''aggression'', 2), (''damage'', 4), (''control'', 1)])])) \<and>
   0 \<le> scoreB (calculate_result (open_record [(''j1'', points_entry [(''aggression'', 2), (''damage'', 4), (''control'', 1)])]))"
  using scores_nonnegative_when_bounded
    [of "open_record [(''j1'', points_entry [(''aggression'', 2), (''damage'', 4), (''control'', 1)])]"]
  by (simp add: eval_defs)

text \<open>
  C4, counterexample to the claim as stated: a judge giving 12 for aggression makes
  \<open>scoreB\<close> negative, a judge giving -2 for damage makes \<open>scoreA\<close> negative.
\<close>

theorem scores_nonnegative_counterexample:
  "calculate_result (open_record [(''j1'', points_entry [(''aggression'', 12)])]) =
     \<lparr>winnerId = Some 1, winMethod = Points, scoreA = 12, scoreB = - 1, koVotes = None\<rparr> \<and>
   calculate_result (open_record [(''j1'', points_entry [(''damage'', - 2)])]) =
     \<lparr>winnerId = Some 2, winMethod = Points, scoreA = - 2, scoreB = 13, koVotes = None\<rparr>"
  by (simp add: eval_defs)

text \<open>
  C5 (as the code has it). When no identifier has two or more knockout votes and every
  judge's submission carries a non-empty scores object, \<open>scoreA + scoreB\<close> is 11 times
  the number of judges.
\<close>

theorem point_symmetry:
  assumes "\<forall>w. votes_for (map snd (judges r)) w < 2"
    and "\<forall>j \<in> set (map snd (judges r)). \<exists>s. scores j = Some s \<and> s \<noteq> []"
  shows "scoreA (calculate_result r) + scoreB (calculate_result r) = judge_count r * 11"
proof -
  let ?js = "map snd (judges r)"
  have "\<forall>j \<in> set ?js. scoring j"
    using assms(2) by (auto simp: scoring_def)
  then have f: "filter scoring ?js = ?js" by simp
  have s: "(\<Sum>j\<leftarrow>js. judge_score_a (scores_of j)) + (\<Sum>j\<leftarrow>js. 11 - judge_score_a (scores_of j))
           = int (length js) * 11" for js :: "judge_entry list"
    by (induction js) (auto simp: algebra_simps)
  have "point_totals (0, 0) ?js =
     ((\<Sum>j\<leftarrow>?js. judge_score_a (scores_of j)), (\<Sum>j\<leftarrow>?js. 11 - judge_score_a (scores_of j)))"
    by (simp add: point_totals_sums f)
  then have "scoreA (calculate_result r) + scoreB (calculate_result r) = int (length ?js) * 11"
    using no_majority_points [OF assms(1)] s [of ?js] by simp
  then show ?thesis by (simp add: judge_count_def)
qed

text \<open>
  C5, witness: three point submissions, 19 + 14 = 3 * 11.
\<close>

theorem point_symmetry_witness:
  "judge_count (open_record [(''j1'', points_entry [(''aggression'', 3), (''damage'', 5), (''control'', 3)]),
       (''j2'', points_entry [(''aggression'', 1), (''damage'', 2), (''control'', 3)]),
       (''j3'', points_entry [(''aggression'', 2), (''damage'', 0), (''control'', 0)])]) = 3 \<and>
   calculate_result (open_record [(''j1'', points_entry [(''aggression'', 3), (''damage'', 5), (''control'', 3)]),
       (''j2'', points_entry [(''aggression'', 1), (''damage'', 2), (''control'', 3)]),
       (''j3'', points_entry [(''aggression'', 2), (''damage'', 0), (''control'', 0)])]) =
     \<lparr>winnerId = Some 1, winMethod = Points, scoreA = 19, scoreB = 14, koVotes = None\<rparr>"
  using point_symmetry [of "open_record [(''j1'', points_entry [(''aggression'', 3), (''damage'', 5), (''control'', 3)]),
       (''j2'', points_entry [(''aggression'', 1), (''damage'', 2), (''control'', 3)]),
       (''j3'', points_entry [(''aggression'', 2), (''damage'', 0), (''control'', 0)])]"]
  by (simp add: eval_defs judge_count_def)

text \<open>
  C5, counterexample to the claim as stated: one judge whose scores object is empty
  is counted as a judge and adds nothing to either total.
\<close>

theorem point_symmetry_counterexample:
  "judge_count (open_record [(''j1'', points_entry [])]) = 1 \<and>
   calculate_result (open_record [(''j1'', points_entry [])]) =
     \<lparr>winnerId = Some 2, winMethod = Points, scoreA = 0, scoreB = 0, koVotes = None\<rparr>"
  by (simp add: eval_defs judge_count_def)

text \<open>
  C6 (as the code has it). In the point tally each judge's score for competitor A is
  the sum of the values the scores object holds under the identifiers aggression, damage
  and control (other identifiers are ignored), and competitor B gets 11 minus that sum
  from every judge whose scores object is not empty. The totals of the result are the
  sums over the judges. A scores object has distinct keys.
\<close>

theorem point_tally_reads_default_categories:
  assumes "\<forall>w. votes_for (map snd (judges r)) w < 2"
    and "\<forall>j \<in> set (map snd (judges r)). distinct (map fst (scores_of j))"
  shows "scoreA (calculate_result r) = (\<Sum>j\<leftarrow>map snd (judges r). named_points (scores_of j)) \<and>
         scoreB (calculate_result r) =
           (\<Sum>j\<leftarrow>filter scoring (map snd (judges r)). 11 - named_points (scores_of j))"
proof -
  let ?js = "map snd (judges r)"
  have e: "judge_score_a (scores_of j) = named_points (scores_of j)" if "j \<in> set ?js" for j
    using assms(2) that by (auto simp: judge_score_a_named)
  have a: "(\<Sum>j\<leftarrow>?js. judge_score_a (scores_of j)) = (\<Sum>j\<leftarrow>?js. named_points (scores_of j))"
    by (rule arg_cong [where f = sum_list], rule map_cong) (use e in auto)
  have b: "(\<Sum>j\<leftarrow>filter scoring ?js. 11 - judge_score_a (scores_of j)) =
           (\<Sum>j\<leftarrow>filter scoring ?js. 11 - named_points (scores_of j))"
    by (rule arg_cong [where f = sum_list], rule map_cong) (use e in auto)
  show ?thesis
    using no_majority_points [OF assms(1)] a b by (simp add: point_totals_sums)
qed

text \<open>
  C6, witness: the value under the identifier speed does not count.
\<close>

theorem point_tally_reads_default_categories_witness:
  "calculate_result (open_record [(''j1'', points_entry [(''aggression'', 2), (''speed'', 5), (''control'', 1)]),
      (''j2'', ko_entry 2)]) =
     \<lparr>winnerId = Some 2, winMethod = Points, scoreA = 3, scoreB = 8, koVotes = None\<rparr> \<and>
   named_points [(''aggression'', 2), (''speed'', 5), (''control'', 1)] = 3"
  using point_tally_reads_default_categories
    [of "open_record [(''j1'', points_entry [(''aggression'', 2), (''speed'', 5), (''control'', 1)]),
      (''j2'', ko_entry 2)]"]
  by (simp add: eval_defs named_points_def default_categories_def scores_of_def scoring_def)

text \<open>
  C6, counterexample to the claim as stated: a scores object holding 5 under the
  identifier speed gives competitor A 0, not 5.
\<close>

theorem point_tally_all_categories_counterexample:
  "sum_list (map snd [(''speed'', 5::int)]) = 5 \<and>
   calculate_result (open_record [(''j1'', points_entry [(''speed'', 5)])]) =
     \<lparr>winnerId = Some 2, winMethod = Points, scoreA = 0, scoreB = 11, koVotes = None\<rparr>"
  by (simp add: eval_defs)

text \<open>
  C2 (what the code does). \<open>match_scores\<close> has no check of \<open>finalized\<close> before
  \<open>add_judge_score\<close>: a submission for a finalized row is stored in \<open>judges\<close> and
  answered with success, \<open>finalized = False\<close> and the count of judges still awaited.
  The stored result is not recomputed.
\<close>

theorem submit_after_finalization_accepted:
  assumes "db mid = Some score" and "finalized score"
  shows "match_scores_post db mid (Some data) now =
     (SubmitWaiting
        (judge_count (add_judge_score score (judge_id data) (req_scores data) (is_ko data)
           (ko_winner_id data) now))
        (3 - judge_count (add_judge_score score (judge_id data) (req_scores data) (is_ko data)
           (ko_winner_id data) now)),
      db(mid \<mapsto> add_judge_score score (judge_id data) (req_scores data) (is_ko data)
           (ko_winner_id data) now))"
  using assms
  by (simp add: match_scores_post_def get_or_create_def Let_def add_judge_score_def)

text \<open>
  C2, at a concrete input: a fourth judge submits to a finalized row of three judges;
  the answer is success with \<open>judgeCount = 4\<close> and -1 judges awaited, and the row holds
  four submissions.
\<close>

theorem submit_after_finalization_accepted_witness:
  "match_scores_post [''m1'' \<mapsto> finalized_record] ''m1''
      (Some (points_request ''j4'' [(''aggression'', 3)])) ''2026-03-01T11:00:00'' =
     (SubmitWaiting 4 (- 1),
      [''m1'' \<mapsto> finalized_record\<lparr>judges :=
         [(''j1'', ko_entry 1), (''j2'', ko_entry 1), (''j3'', points_entry [(''damage'', 5)]),
          (''j4'', \<lparr>scores = Some [(''aggression'', 3)], isKO = False, koWinnerId = None,
                    submittedAt = ''2026-03-01T11:00:00''\<rparr>)]\<rparr>])"
  using submit_after_finalization_accepted
    [of "[''m1'' \<mapsto> finalized_record]" "''m1''" finalized_record
        "points_request ''j4'' [(''aggression'', 3)]" "''2026-03-01T11:00:00''"]
  by (simp add: add_judge_score_def judge_count_def)

text \<open>
  C7 (as the code has it). For an existing row, \<open>delete_judge_score\<close> answers
  "Match already finalized" (400) and changes nothing when the row is finalized. When it
  is not finalized and the judge has no submission, \<open>remove_judge_score\<close> returns
  \<open>False\<close>, nothing changes and the endpoint answers "Score not found" (404). Otherwise
  the endpoint answers success and the row keeps every field but \<open>judges\<close>, from which
  exactly the entry of that judge is removed; a later submit of that judge is answered
  with success and stores the judge's new entry.
\<close>

theorem delete_judge_score_cases:
  assumes "db mid = Some score"
  shows "(finalized score \<longrightarrow> delete_judge_score db mid jid = (MatchAlreadyFinalized, db)) \<and>
         (\<not> finalized score \<and> jid \<notin> fst ` set (judges score) \<longrightarrow>
            remove_judge_score score jid = (False, score) \<and>
            delete_judge_score db mid jid = (ScoreNotFound, db)) \<and>
         (\<not> finalized score \<and> jid \<in> fst ` set (judges score) \<longrightarrow>
            delete_judge_score db mid jid =
              (ScoreDeleted,
               db(mid \<mapsto> score\<lparr>judges := filter (\<lambda>(j, e). j \<noteq> jid) (judges score)\<rparr>)) \<and>
            (\<forall>data now. judge_id data = jid \<longrightarrow>
               (\<exists>resp score'.
                  match_scores_post (snd (delete_judge_score db mid jid)) mid (Some data) now =
                    (resp, (snd (delete_judge_score db mid jid))(mid \<mapsto> score')) \<and>
                  status_code resp = 200 \<and>
                  map_of (judges score') jid =
                    Some \<lparr>scores = req_scores data, isKO = is_ko data,
                          koWinnerId = ko_winner_id data, submittedAt = now\<rparr>)))"
proof (intro conjI impI)
  assume "finalized score"
  with assms show "delete_judge_score db mid jid = (MatchAlreadyFinalized, db)"
    by (simp add: delete_judge_score_def)
next
  assume a: "\<not> finalized score \<and> jid \<notin> fst ` set (judges score)"
  then show "remove_judge_score score jid = (False, score)"
    by (simp add: remove_judge_score_def)
  with assms a show "delete_judge_score db mid jid = (ScoreNotFound, db)"
    by (simp add: delete_judge_score_def)
next
  assume a: "\<not> finalized score \<and> jid \<in> fst ` set (judges score)"
  have f: "AList.delete jid (judges score) = filter (\<lambda>(j, e). j \<noteq> jid) (judges score)"
    by (simp add: AList.delete_eq) (metis (mono_tags, lifting) case_prod_unfold)
  from assms a show d: "delete_judge_score db mid jid =
      (ScoreDeleted, db(mid \<mapsto> score\<lparr>judges := filter (\<lambda>(j, e). j \<noteq> jid) (judges score)\<rparr>))"
    by (simp add: delete_judge_score_def remove_judge_score_def f)
  show "\<forall>data now. judge_id data = jid \<longrightarrow>
               (\<exists>resp score'.
                  match_scores_post (snd (delete_judge_score db mid jid)) mid (Some data) now =
                    (resp, (snd (delete_judge_score db mid jid))(mid \<mapsto> score')) \<and>
                  status_code resp = 200 \<and>
                  map_of (judges score') jid =
                    Some \<lparr>scores = req_scores data, isKO = is_ko data,
                          koWinnerId = ko_winner_id data, submittedAt = now\<rparr>)"
    by (auto simp: d match_scores_post_def Let_def get_or_create_def add_judge_score_def
          update_conv')
qed

text \<open>
  C7, witness: the three cases on a finalized row and on an open row of two judges.
\<close>

theorem delete_judge_score_cases_witness:
  "delete_judge_score [''m1'' \<mapsto> finalized_record] ''m1'' ''j1'' =
     (MatchAlreadyFinalized, [''m1'' \<mapsto> finalized_record]) \<and>
   remove_judge_score (open_record [(''j1'', ko_entry 1), (''j2'', points_entry [(''damage'', 5)])]) ''j3'' =
     (False, open_record [(''j1'', ko_entry 1), (''j2'', points_entry [(''damage'', 5)])]) \<and>
   delete_judge_score
     [''m1'' \<mapsto> open_record [(''j1'', ko_entry 1), (''j2'', points_entry [(''damage'', 5)])]]
     ''m1'' ''j3'' =
     (ScoreNotFound,
      [''m1'' \<mapsto> open_record [(''j1'', ko_entry 1), (''j2'', points_entry [(''damage'', 5)])]]) \<and>
   delete_judge_score
     [''m1'' \<mapsto> open_record [(''j1'', ko_entry 1), (''j2'', points_entry [(''damage'', 5)])]]
     ''m1'' ''j1'' =
     (ScoreDeleted, [''m1'' \<mapsto> open_record [(''j2'', points_entry [(''damage'', 5)])]])"
  using delete_judge_score_cases
      [of "[''m1'' \<mapsto> finalized_record]" "''m1''" finalized_record "''j1''"]
    delete_judge_score_cases
      [of "[''m1'' \<mapsto> open_record [(''j1'', ko_entry 1), (''j2'', points_entry [(''damage'', 5)])]]"
          "''m1''" "open_record [(''j1'', ko_entry 1), (''j2'', points_entry [(''damage'', 5)])]" "''j3''"]
    delete_judge_score_cases
      [of "[''m1'' \<mapsto> open_record [(''j1'', ko_entry 1), (''j2'', points_entry [(''damage'', 5)])]]"
          "''m1''" "open_record [(''j1'', ko_entry 1), (''j2'', points_entry [(''damage'', 5)])]" "''j1''"]
  by simp

text \<open>
  C7, counterexample to the claim as stated (a judge without submission gets
  \<open>false\<close>, not an error): on an open row the endpoint answers with the error
  "Score not found", status 404.
\<close>

theorem delete_missing_judge_counterexample:
  "\<not> finalized (open_record [(''j1'', ko_entry 1)]) \<and>
   delete_judge_score [''m1'' \<mapsto> open_record [(''j1'', ko_entry 1)]] ''m1'' ''j2'' =
     (ScoreNotFound, [''m1'' \<mapsto> open_record [(''j1'', ko_entry 1)]]) \<and>
   status_code ScoreNotFound = 404"
  by (simp add: delete_judge_score_def remove_judge_score_def)

text \<open>
  Three submissions for match m1 and the recovery of match m2 from an attachment,
  evaluated step by step.
\<close>

lemma first_submit_example:
  "match_scores_post Map.empty ''m1''
     (Some (points_request ''j1'' [(''aggression'', 3), (''damage'', 5), (''control'', 3)]))
     ''2026-03-01T10:00:00'' =
   (SubmitWaiting 1 2,
    [''m1'' \<mapsto> open_record
       [(''j1'', points_entry [(''aggression'', 3), (''damage'', 5), (''control'', 3)])]])"
  by (simp add: match_scores_post_def get_or_create_def add_judge_score_def judge_count_def Let_def)

lemma second_submit_example:
  "match_scores_post
     [''m1'' \<mapsto> open_record
       [(''j1'', points_entry [(''aggression'', 3), (''damage'', 5), (''control'', 3)])]]
     ''m1'' (Some (points_request ''j2'' [(''aggression'', 1), (''damage'', 2)]))
     ''2026-03-01T10:00:00'' =
   (SubmitWaiting 2 1,
    [''m1'' \<mapsto> open_record
       [(''j1'', points_entry [(''aggression'', 3), (''damage'', 5), (''control'', 3)]),
        (''j2'', points_entry [(''aggression'', 1), (''damage'', 2)])]])"
  by (simp add: match_scores_post_def get_or_create_def add_judge_score_def judge_count_def Let_def)

lemma third_submit_example:
  "match_scores_post
     [''m1'' \<mapsto> open_record
       [(''j1'', points_entry [(''aggression'', 3), (''damage'', 5), (''control'', 3)]),
        (''j2'', points_entry [(''aggression'', 1), (''damage'', 2)])]]
     ''m1'' (Some (points_request ''j3'' [(''control'', 2)])) ''2026-03-01T10:00:00'' =
   (SubmitFinalized 3
      \<lparr>winnerId = Some 2, winMethod = Points, scoreA = 16, scoreB = 17, koVotes = None\<rparr>,
    [''m1'' \<mapsto> points_finalized_record])"
  by (simp add: match_scores_post_def get_or_create_def add_judge_score_def judge_count_def Let_def
        calculate_result_def judge_score_a_def dict_get_def)

lemma recovery_example:
  "snd (match_scores_details [''m1'' \<mapsto> points_finalized_record] ''m2'' ''t1''
          recovered_attachments) =
   [''m1'' \<mapsto> points_finalized_record, ''m2'' \<mapsto> recovered_record]"
  by (simp add: match_scores_details_def Let_def)

text \<open>
  C8 (as the code has it). In every store reachable from the empty table by submit
  (with the creation and the finalization it performs), delete and the attachment
  recovery of \<open>match_scores_details\<close>, the recovered attachments carrying a non-null
  result, each row has a non-null \<open>result\<close> exactly when it is \<open>finalized\<close>.
\<close>

theorem result_iff_finalized_reachable:
  assumes "reachable carries_result db" and "db mid = Some score"
  shows "(result score \<noteq> None) = finalized score"
proof -
  from assms(1) have "result_iff_finalized db"
  proof (induction rule: reachable.induct)
    case start
    show ?case by (simp add: result_iff_finalized_def)
  next
    case (submit db mid req now)
    then show ?case by (simp add: submit_preserves)
  next
    case (delete db mid jid)
    then show ?case by (simp add: delete_preserves)
  next
    case (details db fetched mid tid)
    then show ?case by (simp add: details_preserves)
  qed
  with assms(2) show ?thesis by (simp add: result_iff_finalized_def)
qed

text \<open>
  C8, witness: the store after three submissions for match m1 and the recovery of
  match m2; both rows are finalized and hold a result.
\<close>

theorem result_iff_finalized_reachable_witness:
  "reachable carries_result
     [''m1'' \<mapsto> points_finalized_record, ''m2'' \<mapsto> recovered_record] \<and>
   (result points_finalized_record \<noteq> None) = finalized points_finalized_record \<and>
   (result recovered_record \<noteq> None) = finalized recovered_record"
proof -
  have c: "carries_result recovered_attachments"
    by (simp add: carries_result_def)
  have "reachable carries_result
     (snd (match_scores_details
       (snd (match_scores_post
         (snd (match_scores_post
           (snd (match_scores_post Map.empty ''m1''
             (Some (points_request ''j1'' [(''aggression'', 3), (''damage'', 5), (''control'', 3)]))
             ''2026-03-01T10:00:00''))
           ''m1'' (Some (points_request ''j2'' [(''aggression'', 1), (''damage'', 2)]))
           ''2026-03-01T10:00:00''))
         ''m1'' (Some (points_request ''j3'' [(''control'', 2)])) ''2026-03-01T10:00:00''))
       ''m2'' ''t1'' recovered_attachments))"
    by (intro reachable.details reachable.submit reachable.start c)
  then have r: "reachable carries_result
     [''m1'' \<mapsto> points_finalized_record, ''m2'' \<mapsto> recovered_record]"
    by (simp only: first_submit_example second_submit_example third_submit_example
          recovery_example snd_conv)
  from result_iff_finalized_reachable [OF r, of "''m1''"]
    result_iff_finalized_reachable [OF r, of "''m2''"] r
  show ?thesis by simp
qed

text \<open>
  C8, counterexample to the claim as stated: the recovery stores \<open>finalized = True\<close>
  with whatever result the attachment holds; an attachment of type judge_scores without
  result gives a finalized row whose result is null.
\<close>

theorem result_iff_finalized_counterexample:
  "reachable any_attachments
     (snd (match_scores_details Map.empty ''m1'' ''t1''
        (Some [Json \<lparr>att_type = Some ''judge_scores'', att_judges = None,
                 att_competitorAId = Some 1, att_competitorBId = Some 2, att_result = None\<rparr>]))) \<and>
   snd (match_scores_details Map.empty ''m1'' ''t1''
        (Some [Json \<lparr>att_type = Some ''judge_scores'', att_judges = None,
                 att_competitorAId = Some 1, att_competitorBId = Some 2, att_result = None\<rparr>])) ''m1'' =
     Some \<lparr>match_id = ''m1'', tournament_id = ''t1'', competitor_a_id = Some 1,
       competitor_b_id = Some 2, judges = [], finalized = True, result = None\<rparr>"
proof -
  have "reachable any_attachments
     (snd (match_scores_details Map.empty ''m1'' ''t1''
        (Some [Json \<lparr>att_type = Some ''judge_scores'', att_judges = None,
                 att_competitorAId = Some 1, att_competitorBId = Some 2, att_result = None\<rparr>])))"
    by (intro reachable.details reachable.start) (simp add: any_attachments_def)
  then show ?thesis
    by (simp add: match_scores_details_def Let_def)
qed

text \<open>
  C10. The knockout winner is not checked against the competitors of the row: some
  row holds two or more knockout votes for an identifier that is neither competitor, and
  \<open>calculate_result\<close> returns that identifier as winner with method KO, \<open>scoreA = 0\<close>
  and \<open>scoreB = 33\<close>.
\<close>

theorem ko_winner_not_validated:
  "\<exists>r w. Some w \<noteq> competitor_a_id r \<and> Some w \<noteq> competitor_b_id r \<and>
         2 \<le> votes_for (map snd (judges r)) w \<and>
         calculate_result r =
           \<lparr>winnerId = Some w, winMethod = KO, scoreA = 0, scoreB = 33,
            koVotes = Some (votes_for (map snd (judges r)) w)\<rparr>"
proof -
  let ?r = "open_record [(''j1'', ko_entry 99), (''j2'', ko_entry 99), (''j3'', ko_entry 1)]"
  have "Some 99 \<noteq> competitor_a_id ?r \<and> Some 99 \<noteq> competitor_b_id ?r \<and>
         2 \<le> votes_for (map snd (judges ?r)) 99 \<and>
         calculate_result ?r =
           \<lparr>winnerId = Some 99, winMethod = KO, scoreA = 0, scoreB = 33,
            koVotes = Some (votes_for (map snd (judges ?r)) 99)\<rparr>"
    by (simp add: eval_defs)
  then show ?thesis by blast
qed

end
